theory Spec2Isabelle
  imports Complex_Main "HOL-Library.Multiset"
begin

section \<open>Strings and exceptions\<close>

text \<open>
  A Python \<open>str\<close> is a sequence of Unicode code points, so it is modelled as a list of
  code points. \<open>lit\<close> turns an ASCII literal of the source into such a list.
\<close>

type_synonym pystr = "nat list"

definition lit :: "string \<Rightarrow> pystr" where
  "lit s = map of_char s"

text \<open>
  The exceptions a request can raise, by the two classes the handlers of the source tell
  apart: \<open>urllib.error.HTTPError\<close>, which carries \<open>e.code\<close>, and every other exception
  derived from \<open>Exception\<close> (URLError, a socket timeout, ValueError for a malformed URL,
  an ssl or http.client error, KeyError, ...). Each carries \<open>str(e)\<close>.
\<close>

datatype exn = HTTPError int pystr | Exception pystr

fun str_exn :: "exn \<Rightarrow> pystr" where
  "str_exn (HTTPError code msg) = msg"
| "str_exn (Exception msg) = msg"

section \<open>ping_urls.py: check_url\<close>

text \<open>
  The dictionary \<open>details\<close> has the five fixed keys of the source. \<open>status_code\<close> and
  \<open>response_time\<close> start as Python's \<open>None\<close>. The type \<open>'f\<close> stands for Python's
  floats; what is proved of the response time itself takes the real numbers for them.
\<close>

record 'f details =
  url :: pystr
  is_404 :: bool
  status_code :: "int option"
  response_time :: "'f option"
  error :: pystr

text \<open>
  What the world does during one call of \<open>check_url\<close>:
  \<^item> \<open>clock_start\<close>, \<open>clock_end\<close>: the two readings of \<open>time.time()\<close> (lines 22 and 44);
  \<^item> \<open>request\<close>: lines 31 to 34, that is \<open>HeadRequest(url)\<close>, \<open>urlopen(req, timeout=5)\<close>
    and \<open>response.getcode()\<close>: either an exception, or the value of \<open>getcode()\<close>
    (an integer for an HTTP response, \<open>None\<close> for a response without a status such as
    that of a \<open>file:\<close> URL);
  \<^item> \<open>closing\<close>: leaving the \<open>with\<close> block closes the response, inside the \<open>try\<close>;
    an exception raised there reaches the same handlers.
\<close>

record 'f probe_env =
  clock_start :: 'f
  request :: "exn + int option"
  closing :: "exn option"
  clock_end :: 'f

text \<open>Lines 31 to 36: the body of the \<open>try\<close>, returning the exception it raised, if any.\<close>

definition try_body :: "'f probe_env \<Rightarrow> 'f details \<Rightarrow> exn option \<times> 'f details" where
  "try_body env d =
     (case request env of
        Inl e \<Rightarrow> (Some e, d)
      | Inr status \<Rightarrow>
          (closing env, d\<lparr>status_code := status, is_404 := (status = Some 404)\<rparr>))"

text \<open>Lines 37 to 43: the two handlers, the first matching one wins.\<close>

fun except_clauses :: "exn \<Rightarrow> 'f details \<Rightarrow> 'f details" where
  "except_clauses (HTTPError code msg) d =
     d\<lparr>status_code := Some code, is_404 := (code = 404), error := msg\<rparr>"
| "except_clauses (Exception msg) d = d\<lparr>error := msg\<rparr>"

text \<open>
  \<open>check_url\<close>, lines 13 to 45. \<open>round3\<close> stands for Python's \<open>round(x, 3)\<close> on floats.
  The result is \<open>Inr\<close> of the returned dictionary, or \<open>Inl\<close> of an exception that leaves
  the function.
\<close>

definition check_url :: "('f::minus \<Rightarrow> 'f) \<Rightarrow> pystr \<Rightarrow> 'f probe_env \<Rightarrow> exn + 'f details" where
  "check_url round3 u env =
     (let start = clock_start env;
          d = \<lparr>url = u, is_404 = False, status_code = None, response_time = None, error = []\<rparr>;
          (raised, d) = try_body env d;
          d = (case raised of None \<Rightarrow> d | Some e \<Rightarrow> except_clauses e d)
      in Inr (d\<lparr>response_time := Some (round3 (clock_end env - start))\<rparr>))"

text \<open>The exception raised inside the \<open>try\<close> of \<open>check_url\<close>, if any.\<close>

definition raised_in_try :: "'f probe_env \<Rightarrow> exn option" where
  "raised_in_try env = (case request env of Inl e \<Rightarrow> Some e | Inr status \<Rightarrow> closing env)"



section \<open>ping_urls.py: main\<close>

text \<open>
  \<open>str.strip()\<close> removes the leading and trailing characters that Python counts as
  whitespace: the code points below.
\<close>

definition isspace :: "nat \<Rightarrow> bool" where
  "isspace c \<longleftrightarrow>
     (9 \<le> c \<and> c \<le> 13) \<or> (28 \<le> c \<and> c \<le> 32) \<or> c = 133 \<or> c = 160 \<or> c = 5760 \<or>
     (8192 \<le> c \<and> c \<le> 8202) \<or> c = 8232 \<or> c = 8233 \<or> c = 8239 \<or> c = 8287 \<or> c = 12288"

definition strip :: "pystr \<Rightarrow> pystr" where
  "strip s = rev (dropWhile isspace (rev (dropWhile isspace s)))"

text \<open>
  Lines 52 to 57. The argument is the sequence of rows that \<open>csv.reader\<close> yields, each a
  list of fields: a line with no character gives the row \<open>[]\<close>, any other line a row with
  at least one field.
\<close>

fun read_urls :: "pystr list list \<Rightarrow> pystr list" where
  "read_urls [] = []"
| "read_urls ([] # rows) = read_urls rows"
| "read_urls ((field0 # others) # rows) = strip field0 # read_urls rows"

text \<open>
  A \<open>Future\<close> is an object with an identity of its own (here the number of the
  \<open>submit\<close> call that made it) holding what its call of \<open>check_url\<close> returned or raised.
\<close>

record 'f future =
  future_id :: nat
  outcome :: "exn + 'f details"

text \<open>
  Line 62: the dictionary \<open>future_to_url\<close>, keyed by the futures. The \<open>n\<close>-th submitted
  call runs in the world \<open>envs n\<close>.
\<close>

fun submit_each ::
  "('f::minus \<Rightarrow> 'f) \<Rightarrow> (nat \<Rightarrow> 'f probe_env) \<Rightarrow> nat \<Rightarrow> pystr list \<Rightarrow>
   ('f future \<rightharpoonup> pystr) \<Rightarrow> ('f future \<rightharpoonup> pystr)" where
  "submit_each round3 envs n [] m = m"
| "submit_each round3 envs n (u # us) m =
     submit_each round3 envs (Suc n) us
       (m(\<lparr>future_id = n, outcome = check_url round3 u (envs n)\<rparr> \<mapsto> u))"

text \<open>The futures that line 62 makes, in the order of the \<open>submit\<close> calls.\<close>

fun submitted ::
  "('f::minus \<Rightarrow> 'f) \<Rightarrow> (nat \<Rightarrow> 'f probe_env) \<Rightarrow> nat \<Rightarrow> pystr list \<Rightarrow> 'f future list" where
  "submitted round3 envs n [] = []"
| "submitted round3 envs n (u # us) =
     \<lparr>future_id = n, outcome = check_url round3 u (envs n)\<rparr> # submitted round3 envs (Suc n) us"

text \<open>
  \<open>concurrent.futures.as_completed(fs)\<close> yields every future of \<open>fs\<close> once, in the order
  in which they finish: any order is possible.
\<close>

definition as_completed :: "('a \<rightharpoonup> 'b) \<Rightarrow> 'a list \<Rightarrow> bool" where
  "as_completed fs ys \<longleftrightarrow> distinct ys \<and> set ys = dom fs"

text \<open>
  Lines 63 to 69: the loop over the finished futures, on the state \<open>(results, printed)\<close>.
  \<open>future_to_url[future]\<close> raises KeyError for a missing key.
\<close>

fun collect ::
  "('f future \<rightharpoonup> pystr) \<Rightarrow> 'f future list \<Rightarrow> 'f details list \<times> pystr list \<Rightarrow>
   exn + 'f details list \<times> pystr list" where
  "collect m [] st = Inr st"
| "collect m (f # fs) (results, printed) =
     (case outcome f of
        Inr result \<Rightarrow> collect m fs (results @ [result], printed)
      | Inl exc \<Rightarrow>
          (case m f of
             None \<Rightarrow> Inl (Exception (lit ''KeyError''))
           | Some u \<Rightarrow>
               collect m fs
                 (results, printed @ [lit ''Error checking '' @ u @ lit '': '' @ str_exn exc])))"

text \<open>Lines 59 to 69: the probes of all URLs; \<open>completed\<close> is what \<open>as_completed\<close> yields.\<close>

definition probe_all ::
  "('f::minus \<Rightarrow> 'f) \<Rightarrow> (nat \<Rightarrow> 'f probe_env) \<Rightarrow> pystr list \<Rightarrow> 'f future list \<Rightarrow>
   exn + 'f details list \<times> pystr list" where
  "probe_all round3 envs urls completed =
     (let future_to_url = submit_each round3 envs 0 urls Map.empty
      in collect future_to_url completed ([], []))"

text \<open>Lines 71 to 82: the rows handed to \<open>csv.writer\<close>.\<close>

datatype 'f cell = CStr pystr | CBool bool | CInt int | CFloat 'f | CNone

definition write_rows :: "'f details list \<Rightarrow> 'f cell list list" where
  "write_rows results =
     map CStr [lit ''URL'', lit ''Is 404'', lit ''Status Code'', lit ''Response Time'', lit ''Error'']
     # map (\<lambda>r. [CStr (url r), CBool (is_404 r),
                   (case status_code r of None \<Rightarrow> CNone | Some c \<Rightarrow> CInt c),
                   (case response_time r of None \<Rightarrow> CNone | Some t \<Rightarrow> CFloat t),
                   CStr (error r)]) results"

text \<open>\<open>main\<close>, from the rows read to the rows written and the lines printed.\<close>

definition main ::
  "('f::minus \<Rightarrow> 'f) \<Rightarrow> (nat \<Rightarrow> 'f probe_env) \<Rightarrow> pystr list list \<Rightarrow> 'f future list \<Rightarrow>
   exn + 'f cell list list \<times> pystr list" where
  "main round3 envs rows completed =
     (let urls = read_urls rows
      in case probe_all round3 envs urls completed of
           Inl e \<Rightarrow> Inl e
         | Inr (results, printed) \<Rightarrow>
             Inr (write_rows results,
                  printed @ [lit ''Results written to no_html_results.csv'']))"

section \<open>gsearch.py\<close>

text \<open>The request built on lines 6 to 18.\<close>

datatype json_in = JString pystr | JNumber int | JArray "json_in list"

record request =
  req_full_url :: pystr
  req_data :: "(pystr \<times> json_in) list"
  req_headers :: "(pystr \<times> pystr) list"

text \<open>
  What the world does during one call: \<open>urlopen(req)\<close> raises or gives a response, whose
  \<open>read()\<close> raises or gives bytes, and whose closing, on leaving the \<open>with\<close> block, may
  raise too. \<open>decode\<close> is \<open>bytes.decode("utf-8")\<close> and \<open>json_loads\<close> is \<open>json.loads\<close>,
  whose value is a Python object (\<open>None\<close> for the JSON text \<open>null\<close>).
\<close>

record response =
  read :: "exn + nat list"
  close :: "exn option"

record 'v fetch_env =
  urlopen :: "request \<Rightarrow> exn + response"
  decode :: "nat list \<Rightarrow> exn + pystr"
  json_loads :: "pystr \<Rightarrow> exn + 'v option"

text \<open>
  An argument of \<open>get_search_analytics_data\<close> is any Python object. The function does two
  things with it: it formats it into a string (lines 6 and 8), and it hands it to
  \<open>json.dumps\<close> (line 17), which writes a JSON value for it or raises TypeError when the
  object is not JSON serializable (a \<open>date\<close>, a \<open>bytes\<close>, a \<open>set\<close>). \<open>str_arg\<close> is the
  argument that is a string.
\<close>

record pyarg =
  formatted :: pystr
  as_json :: "exn + json_in"

definition str_arg :: "pystr \<Rightarrow> pyarg" where
  "str_arg s = \<lparr>formatted = s, as_json = Inr (JString s)\<rparr>"

text \<open>
  \<open>Request\<close> stores each header under \<open>key.capitalize()\<close>; the keys of the source are
  ASCII, on which \<open>capitalize\<close> is as follows.
\<close>

definition upper :: "nat \<Rightarrow> nat" where
  "upper c = (if 97 \<le> c \<and> c \<le> 122 then c - 32 else c)"

definition lower :: "nat \<Rightarrow> nat" where
  "lower c = (if 65 \<le> c \<and> c \<le> 90 then c + 32 else c)"

fun capitalize :: "pystr \<Rightarrow> pystr" where
  "capitalize [] = []"
| "capitalize (c # cs) = upper c # map lower cs"

text \<open>
  Lines 6 to 18, which stand before the \<open>try\<close>: an exception of \<open>json.dumps(payload)\<close> on
  line 17 leaves the function. \<open>json.dumps\<close> writes the entries of \<open>payload\<close> in order, so
  \<open>start_date\<close> is met first. The request carries the payload itself in the place of its
  encoding.
\<close>

definition build_request :: "pyarg \<Rightarrow> pyarg \<Rightarrow> pyarg \<Rightarrow> pyarg \<Rightarrow> exn + request" where
  "build_request access_token site_url start_date end_date =
     (let endpoint = lit ''https://www.googleapis.com/webmasters/v3/sites/''
                       @ formatted site_url @ lit ''/searchAnalytics/query'';
          headers = [(lit ''Authorization'', lit ''Bearer '' @ formatted access_token),
                     (lit ''Content-Type'', lit ''application/json'')]
      in case as_json start_date of
           Inl e \<Rightarrow> Inl e
         | Inr start_json \<Rightarrow>
             (case as_json end_date of
                Inl e \<Rightarrow> Inl e
              | Inr end_json \<Rightarrow>
                  Inr \<lparr>req_full_url = endpoint,
                       req_data = [(lit ''startDate'', start_json),
                                   (lit ''endDate'', end_json),
                                   (lit ''dimensions'', JArray [JString (lit ''page'')]),
                                   (lit ''rowLimit'', JNumber 5000)],
                       req_headers = map (\<lambda>(key, val). (capitalize key, val)) headers\<rparr>))"

text \<open>Lines 20 to 23: the body of the \<open>try\<close>. The \<open>with\<close> block closes the response on
  the way out, whether its body returned or raised, and an exception of the closing
  replaces the one of the body.\<close>

definition fetch_body :: "'v fetch_env \<Rightarrow> request \<Rightarrow> exn + 'v option" where
  "fetch_body env req =
     (case urlopen env req of
        Inl e \<Rightarrow> Inl e
      | Inr response \<Rightarrow>
          (case (case read response of
                   Inl e \<Rightarrow> Inl e
                 | Inr response_data \<Rightarrow>
                     (case decode env response_data of
                        Inl e \<Rightarrow> Inl e
                      | Inr text \<Rightarrow> json_loads env text)) of
             Inl e \<Rightarrow> Inl (case close response of None \<Rightarrow> e | Some e' \<Rightarrow> e')
           | Inr v \<Rightarrow> (case close response of None \<Rightarrow> Inr v | Some e' \<Rightarrow> Inl e')))"

text \<open>
  \<open>get_search_analytics_data\<close>: the value returned (\<open>None\<close> is Python's \<open>None\<close>) and the
  lines printed, or \<open>Inl\<close> of an exception that leaves the function.
\<close>

definition get_search_analytics_data ::
  "'v fetch_env \<Rightarrow> pyarg \<Rightarrow> pyarg \<Rightarrow> pyarg \<Rightarrow> pyarg \<Rightarrow> exn + 'v option \<times> pystr list" where
  "get_search_analytics_data env access_token site_url start_date end_date =
     (case build_request access_token site_url start_date end_date of
        Inl e \<Rightarrow> Inl e
      | Inr req \<Rightarrow>
          (case fetch_body env req of
             Inr v \<Rightarrow> Inr (v, [])
           | Inl e \<Rightarrow> Inr (None, [lit ''Error fetching data: '' @ str_exn e])))"

section \<open>Example worlds\<close>

text \<open>Concrete worlds and arguments for the examples below.\<close>

definition responds :: "int \<Rightarrow> int probe_env" where
  "responds code = \<lparr>clock_start = 0, request = Inr (Some code), closing = None, clock_end = 1\<rparr>"

definition times_out :: "int probe_env" where
  "times_out = \<lparr>clock_start = 0, request = Inl (Exception (lit ''timed out'')),
                 closing = None, clock_end = 5\<rparr>"

definition http_error :: "int \<Rightarrow> int probe_env" where
  "http_error code = \<lparr>clock_start = 0, request = Inl (HTTPError code (lit ''HTTP Error'')),
                       closing = None, clock_end = 1\<rparr>"



definition a_date :: pyarg where
  "a_date = \<lparr>formatted = lit ''2024-01-01'',
             as_json = Inl (Exception (lit ''Object of type date is not JSON serializable''))\<rparr>"

definition fetch_ok :: "nat fetch_env" where
  "fetch_ok = \<lparr>urlopen = (\<lambda>req. Inr \<lparr>read = Inr [55], close = None\<rparr>),
               decode = (\<lambda>bytes. Inr bytes),
               json_loads = (\<lambda>text. if text = [55] then Inr (Some 7) else Inl (Exception (lit ''Expecting value'')))\<rparr>"

definition fetch_forbidden :: "nat fetch_env" where
  "fetch_forbidden = fetch_ok\<lparr>urlopen := (\<lambda>req. Inl (HTTPError 403 (lit ''HTTP Error 403: Forbidden'')))\<rparr>"

section \<open>Properties of check_url\<close>

text \<open>The three ways through \<open>check_url\<close>, as equations.\<close>

lemma check_url_request_raises:
  "request env = Inl e \<Longrightarrow>
   check_url round3 u env =
     Inr ((except_clauses e \<lparr>url = u, is_404 = False, status_code = None, response_time = None,
            error = []\<rparr>)\<lparr>response_time := Some (round3 (clock_end env - clock_start env))\<rparr>)"
  by (simp add: check_url_def try_body_def)

lemma check_url_responds:
  "request env = Inr status \<Longrightarrow> closing env = None \<Longrightarrow>
   check_url round3 u env =
     Inr \<lparr>url = u, is_404 = (status = Some 404), status_code = status,
          response_time = Some (round3 (clock_end env - clock_start env)), error = []\<rparr>"
  by (simp add: check_url_def try_body_def)

lemma check_url_closing_raises:
  "request env = Inr status \<Longrightarrow> closing env = Some e \<Longrightarrow>
   check_url round3 u env =
     Inr ((except_clauses e \<lparr>url = u, is_404 = (status = Some 404), status_code = status,
            response_time = None, error = []\<rparr>)
          \<lparr>response_time := Some (round3 (clock_end env - clock_start env))\<rparr>)"
  by (simp add: check_url_def try_body_def)

lemma except_clauses_error: "error (except_clauses e d) = str_exn e"
  by (cases e) simp_all

lemma except_clauses_url: "url (except_clauses e d) = url d"
  by (cases e) simp_all

lemma check_url_returns: "\<exists>d. check_url round3 u env = Inr d \<and> url d = u"
  by (simp add: check_url_def try_body_def Let_def except_clauses_url
      split: sum.splits option.splits)

text \<open>
  Claim C1. For every URL and whatever the request does, \<open>check_url\<close> returns a result
  for that URL and lets no exception out; when the \<open>try\<close> raised an exception, the
  \<open>error\<close> field of the result is that exception's text \<open>str(e)\<close>, and it is the empty
  string when nothing was raised.
\<close>

theorem check_url_never_raises:
  "\<exists>d. check_url round3 u env = Inr d \<and> url d = u \<and>
       error d = (case raised_in_try env of None \<Rightarrow> [] | Some e \<Rightarrow> str_exn e)"
proof (cases "request env")
  case (Inl e)
  then show ?thesis
    by (simp add: check_url_request_raises raised_in_try_def except_clauses_error
        except_clauses_url)
next
  case (Inr status)
  show ?thesis
  proof (cases "closing env")
    case None
    with Inr show ?thesis
      by (simp add: check_url_responds raised_in_try_def)
  next
    case (Some e)
    with Inr show ?thesis
      by (simp add: check_url_closing_raises raised_in_try_def except_clauses_error
          except_clauses_url)
  qed
qed

text \<open>
  Claim C3. In every result of \<open>check_url\<close> the flag \<open>is_404\<close> is true exactly when
  \<open>status_code\<close> is present and equal to 404; it is never true with an absent
  \<open>status_code\<close>.
\<close>

theorem is_404_iff_status_404:
  "\<exists>d. check_url round3 u env = Inr d \<and> is_404 d = (status_code d = Some 404) \<and>
       \<not> (is_404 d \<and> status_code d = None)"
proof (cases "request env")
  case (Inl e)
  then show ?thesis
    by (cases e) (simp_all add: check_url_request_raises)
next
  case (Inr status)
  show ?thesis
  proof (cases "closing env")
    case None
    with Inr show ?thesis
      by (simp add: check_url_responds)
  next
    case (Some e)
    with Inr show ?thesis
      by (cases e) (auto simp add: check_url_closing_raises)
  qed
qed

text \<open>
  Claim C5. When the \<open>try\<close> raises an \<open>HTTPError\<close> with code \<open>code\<close> and text \<open>msg\<close>,
  \<open>check_url\<close> returns a result with \<open>status_code = code\<close>, \<open>is_404 = (code == 404)\<close>
  and \<open>error = msg\<close>: the result of a normal response with that code, but for the
  \<open>error\<close> field.
\<close>

theorem http_error_classified:
  "raised_in_try env = Some (HTTPError code msg) \<Longrightarrow>
   \<exists>d. check_url round3 u env = Inr d \<and> status_code d = Some code \<and>
       is_404 d = (code = 404) \<and> error d = msg \<and>
       check_url round3 u (env\<lparr>request := Inr (Some code), closing := None\<rparr>) =
         Inr (d\<lparr>error := []\<rparr>)"
proof (cases "request env")
  case (Inl e)
  assume "raised_in_try env = Some (HTTPError code msg)"
  with Inl have "request env = Inl (HTTPError code msg)"
    by (simp add: raised_in_try_def)
  then show ?thesis
    by (simp add: check_url_request_raises check_url_responds)
next
  case (Inr status)
  assume "raised_in_try env = Some (HTTPError code msg)"
  with Inr have "closing env = Some (HTTPError code msg)"
    by (simp add: raised_in_try_def)
  with Inr show ?thesis
    by (simp add: check_url_closing_raises check_url_responds)
qed

text \<open>An \<open>HTTPError\<close> with code 404.\<close>

theorem http_error_classified_witness:
  "raised_in_try (http_error 404) = Some (HTTPError 404 (lit ''HTTP Error'')) \<and>
   check_url (\<lambda>x. x) [97] (http_error 404) =
     Inr \<lparr>url = [97], is_404 = True, status_code = Some 404, response_time = Some 1,
          error = lit ''HTTP Error''\<rparr>"
proof -
  have h: "raised_in_try (http_error 404) = Some (HTTPError 404 (lit ''HTTP Error''))"
    by (simp add: raised_in_try_def http_error_def)
  from http_error_classified [OF h, of "\<lambda>x. x" "[97]"] h show ?thesis
    by (auto simp add: check_url_request_raises http_error_def)
qed

section \<open>Properties of the probe loop\<close>

lemma dom_submit_each:
  "dom (submit_each round3 envs n us m) = dom m \<union> set (submitted round3 envs n us)"
  by (induction us arbitrary: n m) auto

lemma future_id_submitted:
  "map future_id (submitted round3 envs n us) = [n..<n + length us]"
  by (induction us arbitrary: n) (simp_all add: upt_rec)

lemma distinct_submitted: "distinct (submitted round3 envs n us)"
proof -
  have "distinct (map future_id (submitted round3 envs n us))"
    by (simp add: future_id_submitted)
  then show ?thesis
    by (simp add: distinct_map)
qed

lemma outcome_submitted:
  "map outcome (submitted round3 envs n us) =
     map (\<lambda>(i, u). check_url round3 u (envs i)) (enumerate n us)"
  by (induction us arbitrary: n) simp_all

lemma submitted_nth:
  "i < length us \<Longrightarrow>
   submitted round3 envs n us ! i =
     \<lparr>future_id = n + i, outcome = check_url round3 (us ! i) (envs (n + i))\<rparr>"
proof (induction us arbitrary: n i)
  case Nil
  then show ?case by simp
next
  case (Cons u us)
  then show ?case by (cases i) simp_all
qed

lemma length_submitted: "length (submitted round3 envs n us) = length us"
  by (induction us arbitrary: n) simp_all

lemma submitted_returned:
  "f \<in> set (submitted round3 envs n us) \<Longrightarrow> \<exists>d. outcome f = Inr d \<and> url d \<in> set us"
proof (induction us arbitrary: n)
  case Nil
  then show ?case by simp
next
  case (Cons u us)
  then show ?case
    using check_url_returns [of round3 u "envs n"] by auto
qed

lemma collect_returned:
  "(\<forall>f \<in> set fs. \<exists>d. outcome f = Inr d) \<Longrightarrow>
   \<exists>rs. collect m fs (results, printed) = Inr (results @ rs, printed) \<and>
        map Inr rs = map outcome fs"
proof (induction fs arbitrary: results)
  case Nil
  then show ?case by simp
next
  case (Cons f fs)
  from Cons.prems obtain d where d: "outcome f = Inr d"
    by auto
  from Cons.prems have "\<forall>f \<in> set fs. \<exists>d. outcome f = Inr d"
    by simp
  from Cons.IH [OF this, of "results @ [d]"] obtain rs where
    rs: "collect m fs (results @ [d], printed) = Inr ((results @ [d]) @ rs, printed)"
      "map Inr rs = map outcome fs"
    by blast
  show ?case
  proof (intro exI conjI)
    show "collect m (f # fs) (results, printed) = Inr (results @ (d # rs), printed)"
      using d rs(1) by simp
    show "map Inr (d # rs) = map outcome (f # fs)"
      using d rs(2) by simp
  qed
qed

lemma probe_all_results:
  assumes "as_completed (submit_each round3 envs 0 urls Map.empty) completed"
  shows "\<exists>results. probe_all round3 envs urls completed = Inr (results, []) \<and>
           mset (map Inr results) =
             mset (map (\<lambda>(i, u). check_url round3 u (envs i)) (enumerate 0 urls))"
proof -
  let ?fs = "submitted round3 envs 0 urls"
  from assms have dist: "distinct completed" and set: "set completed = set ?fs"
    by (simp_all add: as_completed_def dom_submit_each)
  from dist set have perm: "mset completed = mset ?fs"
    by (simp add: set_eq_iff_mset_eq_distinct [symmetric] distinct_submitted)
  have "\<forall>f \<in> set completed. \<exists>d. outcome f = Inr d"
    using set submitted_returned by blast
  from collect_returned [OF this, of "submit_each round3 envs 0 urls Map.empty" "[]" "[]"]
  obtain rs where rs:
    "collect (submit_each round3 envs 0 urls Map.empty) completed ([], []) = Inr (rs, [])"
    "map Inr rs = map outcome completed"
    by auto
  have "mset (map Inr rs) = image_mset outcome (mset completed)"
    using rs(2) by simp
  also have "\<dots> = mset (map outcome ?fs)"
    using perm by simp
  finally have "mset (map Inr rs) =
      mset (map (\<lambda>(i, u). check_url round3 u (envs i)) (enumerate 0 urls))"
    by (simp add: outcome_submitted)
  with rs(1) show ?thesis
    by (auto simp add: probe_all_def)
qed

lemma url_of_calls:
  "map (\<lambda>x. case x of Inl e \<Rightarrow> [] | Inr d \<Rightarrow> url d)
     (map (\<lambda>(i, u). check_url round3 u (envs i)) (enumerate n us)) = us"
proof (induction us arbitrary: n)
  case Nil
  then show ?case by simp
next
  case (Cons u us)
  then show ?case
    using check_url_returns [of round3 u "envs n"] by auto
qed

lemma mset_urls_of_results:
  assumes "mset (map Inr results) =
             mset (map (\<lambda>(i, u). check_url round3 u (envs i)) (enumerate 0 urls))"
  shows "mset (map url results) = mset urls"
proof -
  let ?g = "\<lambda>x. case x of Inl (e::exn) \<Rightarrow> [] | Inr d \<Rightarrow> url d"
  have "mset (map url results) = mset (map ?g (map Inr results))"
    by (simp add: comp_def)
  also have "\<dots> = image_mset ?g (mset (map Inr results))"
    by (simp only: mset_map)
  also have "\<dots> = image_mset ?g
      (mset (map (\<lambda>(i, u). check_url round3 u (envs i)) (enumerate 0 urls)))"
    by (simp only: assms)
  also have "\<dots> = mset (map ?g
      (map (\<lambda>(i, u). check_url round3 u (envs i)) (enumerate 0 urls)))"
    by (simp only: mset_map)
  also have "\<dots> = mset urls"
    by (simp only: url_of_calls)
  finally show ?thesis .
qed

lemma count_list_map_url:
  "count_list (map url results) u = length (filter (\<lambda>d. url d = u) results)"
  by (induction results) simp_all

text \<open>
  Claim C4. When the request raises an exception that is not an \<open>HTTPError\<close> before any
  response is there (no status code), \<open>check_url\<close> returns a result with \<open>status_code\<close>
  absent, \<open>is_404\<close> false and \<open>error\<close> the exception's text. Such a failure stays with
  its probe: when probe \<open>j\<close> fails so, the loop still ends without an error, and its
  results are that failure result for probe \<open>j\<close> and, for every other probe, what its own
  call returns in its own world, each once.
\<close>

theorem transport_failure_isolated:
  "(request env = Inl (Exception msg) \<longrightarrow>
      check_url round3 u env =
        Inr \<lparr>url = u, is_404 = False, status_code = None,
             response_time = Some (round3 (clock_end env - clock_start env)), error = msg\<rparr>) \<and>
   (request env = Inl (Exception msg) \<and>
    as_completed (submit_each round3 (envs(j := env)) 0 urls Map.empty) completed \<longrightarrow>
      (\<exists>results.
         probe_all round3 (envs(j := env)) urls completed = Inr (results, []) \<and>
         mset (map Inr results) =
           mset (map (\<lambda>(i, u).
                   if i = j
                   then Inr \<lparr>url = u, is_404 = False, status_code = None,
                             response_time = Some (round3 (clock_end env - clock_start env)),
                             error = msg\<rparr>
                   else check_url round3 u (envs i)) (enumerate 0 urls))))"
proof (intro conjI impI)
  assume "request env = Inl (Exception msg)"
  then show "check_url round3 u env =
      Inr \<lparr>url = u, is_404 = False, status_code = None,
           response_time = Some (round3 (clock_end env - clock_start env)), error = msg\<rparr>"
    by (simp add: check_url_request_raises)
next
  assume a: "request env = Inl (Exception msg) \<and>
    as_completed (submit_each round3 (envs(j := env)) 0 urls Map.empty) completed"
  then have fail: "\<And>u. check_url round3 u env =
      Inr \<lparr>url = u, is_404 = False, status_code = None,
           response_time = Some (round3 (clock_end env - clock_start env)), error = msg\<rparr>"
    by (simp add: check_url_request_raises)
  have same: "(\<lambda>(i, u). check_url round3 u ((envs(j := env)) i)) =
      (\<lambda>(i, u). if i = j
         then Inr \<lparr>url = u, is_404 = False, status_code = None,
                   response_time = Some (round3 (clock_end env - clock_start env)), error = msg\<rparr>
         else check_url round3 u (envs i))"
    by (rule ext) (simp add: fail split: prod.splits)
  from a have "as_completed (submit_each round3 (envs(j := env)) 0 urls Map.empty) completed"
    by simp
  from probe_all_results [OF this] obtain results where
    r: "probe_all round3 (envs(j := env)) urls completed = Inr (results, [])"
      "mset (map Inr results) =
         mset (map (\<lambda>(i, u). check_url round3 u ((envs(j := env)) i)) (enumerate 0 urls))"
    by blast
  from r(2) have "mset (map Inr results) =
      mset (map (\<lambda>(i, u). if i = j
         then Inr \<lparr>url = u, is_404 = False, status_code = None,
                   response_time = Some (round3 (clock_end env - clock_start env)), error = msg\<rparr>
         else check_url round3 u (envs i)) (enumerate 0 urls))"
    by (simp only: same)
  with r(1) show "\<exists>results.
      probe_all round3 (envs(j := env)) urls completed = Inr (results, []) \<and>
      mset (map Inr results) =
        mset (map (\<lambda>(i, u). if i = j
           then Inr \<lparr>url = u, is_404 = False, status_code = None,
                     response_time = Some (round3 (clock_end env - clock_start env)), error = msg\<rparr>
           else check_url round3 u (envs i)) (enumerate 0 urls))"
    by blast
qed

text \<open>A probe that times out, beside one that is answered with 200: both results are there.\<close>

theorem transport_failure_isolated_witness:
  "request times_out = Inl (Exception (lit ''timed out'')) \<and>
   check_url (\<lambda>x. x) [97] times_out =
     Inr \<lparr>url = [97], is_404 = False, status_code = None, response_time = Some 5,
          error = lit ''timed out''\<rparr> \<and>
   as_completed (submit_each (\<lambda>x. x) ((\<lambda>n. responds 200)(0 := times_out)) 0 [[97], [98]] Map.empty)
     [\<lparr>future_id = 0, outcome = check_url (\<lambda>x. x) [97] times_out\<rparr>,
      \<lparr>future_id = 1, outcome = check_url (\<lambda>x. x) [98] (responds 200)\<rparr>] \<and>
   (\<exists>results.
      probe_all (\<lambda>x. x) ((\<lambda>n. responds 200)(0 := times_out)) [[97], [98]]
        [\<lparr>future_id = 0, outcome = check_url (\<lambda>x. x) [97] times_out\<rparr>,
         \<lparr>future_id = 1, outcome = check_url (\<lambda>x. x) [98] (responds 200)\<rparr>] = Inr (results, []) \<and>
      mset results =
        {#\<lparr>url = [97], is_404 = False, status_code = None, response_time = Some 5,
            error = lit ''timed out''\<rparr>,
          \<lparr>url = [98], is_404 = False, status_code = Some 200, response_time = Some 1,
            error = []\<rparr>#})"
proof -
  have h1: "request times_out = Inl (Exception (lit ''timed out''))"
    by (simp add: times_out_def)
  have h2: "as_completed
     (submit_each (\<lambda>x. x) ((\<lambda>n. responds 200)(0 := times_out)) 0 [[97], [98]] Map.empty)
     [\<lparr>future_id = 0, outcome = check_url (\<lambda>x. x) [97] times_out\<rparr>,
      \<lparr>future_id = 1, outcome = check_url (\<lambda>x. x) [98] (responds 200)\<rparr>]"
    by (auto simp add: as_completed_def)
  have ok: "check_url (\<lambda>x. x) [98] (responds 200) =
      Inr \<lparr>url = [98], is_404 = False, status_code = Some 200, response_time = Some 1,
           error = []\<rparr>"
    by (simp add: check_url_responds responds_def)
  have t: "clock_end times_out - clock_start times_out = 5"
    by (simp add: times_out_def)
  from transport_failure_isolated [of times_out "lit ''timed out''" "\<lambda>x. x" "[97]"
      "\<lambda>n. responds 200" 0 "[[97], [98]]"
      "[\<lparr>future_id = 0, outcome = check_url (\<lambda>x. x) [97] times_out\<rparr>,
        \<lparr>future_id = 1, outcome = check_url (\<lambda>x. x) [98] (responds 200)\<rparr>]"] h1 h2
  obtain results where
    r: "probe_all (\<lambda>x. x) ((\<lambda>n. responds 200)(0 := times_out)) [[97], [98]]
        [\<lparr>future_id = 0, outcome = check_url (\<lambda>x. x) [97] times_out\<rparr>,
         \<lparr>future_id = 1, outcome = check_url (\<lambda>x. x) [98] (responds 200)\<rparr>] = Inr (results, [])"
      "mset (map Inr results) =
        mset (map (\<lambda>(i, u). if i = 0
           then Inr \<lparr>url = u, is_404 = False, status_code = None,
                     response_time = Some (clock_end times_out - clock_start times_out),
                     error = lit ''timed out''\<rparr>
           else check_url (\<lambda>x. x) u (responds 200)) (enumerate 0 [[97], [98::nat]]))"
      and c: "check_url (\<lambda>x. x) [97] times_out =
     Inr \<lparr>url = [97], is_404 = False, status_code = None, response_time = Some 5,
          error = lit ''timed out''\<rparr>"
    by (auto simp add: t)
  from r(2) have "image_mset (Inr :: int details \<Rightarrow> exn + int details) (mset results) =
      image_mset Inr
        {#\<lparr>url = [97], is_404 = False, status_code = None, response_time = Some 5,
            error = lit ''timed out''\<rparr>,
          \<lparr>url = [98], is_404 = False, status_code = Some 200, response_time = Some 1,
            error = []\<rparr>#}"
    by (simp add: t ok)
  then have "mset results =
        {#\<lparr>url = [97], is_404 = False, status_code = None, response_time = Some 5,
            error = lit ''timed out''\<rparr>,
          \<lparr>url = [98], is_404 = False, status_code = Some 200, response_time = Some 1,
            error = []\<rparr>#}"
    using injD [OF multiset.inj_map [of "Inr :: int details \<Rightarrow> exn + int details"]]
    by simp
  with r(1) h1 h2 c show ?thesis
    by blast
qed

text \<open>
  Claim C2. For every list of submitted URLs and every order of completion, the loop of
  \<open>main\<close> ends with exactly one result per submitted URL: as many results as URLs, each
  submitted call's return value once among them, and nothing printed as an error.
\<close>

theorem one_result_per_url:
  assumes "as_completed (submit_each round3 envs 0 urls Map.empty) completed"
  shows "\<exists>results. probe_all round3 envs urls completed = Inr (results, []) \<and>
           length results = length urls \<and>
           mset (map Inr results) =
             mset (map (\<lambda>(i, u). check_url round3 u (envs i)) (enumerate 0 urls)) \<and>
           mset (map url results) = mset urls"
proof -
  from probe_all_results [OF assms] obtain results where
    r: "probe_all round3 envs urls completed = Inr (results, [])"
      "mset (map Inr results) =
         mset (map (\<lambda>(i, u). check_url round3 u (envs i)) (enumerate 0 urls))"
    by blast
  have u: "mset (map url results) = mset urls"
    using r(2) by (rule mset_urls_of_results)
  then have "size (mset (map url results)) = size (mset urls)"
    by simp
  then have "length results = length urls"
    by simp
  with r u show ?thesis
    by blast
qed

text \<open>Two URLs, the second probe finishing first.\<close>

theorem one_result_per_url_witness:
  "as_completed (submit_each (\<lambda>x. x) (\<lambda>n. if n = 0 then responds 200 else times_out) 0
       [[97], [98]] Map.empty)
     [\<lparr>future_id = 1, outcome = check_url (\<lambda>x. x) [98] times_out\<rparr>,
      \<lparr>future_id = 0, outcome = check_url (\<lambda>x. x) [97] (responds 200)\<rparr>] \<and>
   (\<exists>results.
      probe_all (\<lambda>x. x) (\<lambda>n. if n = 0 then responds 200 else times_out) [[97], [98]]
        [\<lparr>future_id = 1, outcome = check_url (\<lambda>x. x) [98] times_out\<rparr>,
         \<lparr>future_id = 0, outcome = check_url (\<lambda>x. x) [97] (responds 200)\<rparr>] = Inr (results, []) \<and>
      length results = 2 \<and> mset (map url results) = {#[97], [98]#})"
proof -
  have h: "as_completed (submit_each (\<lambda>x. x) (\<lambda>n. if n = 0 then responds 200 else times_out) 0
       [[97], [98]] Map.empty)
     [\<lparr>future_id = 1, outcome = check_url (\<lambda>x. x) [98] times_out\<rparr>,
      \<lparr>future_id = 0, outcome = check_url (\<lambda>x. x) [97] (responds 200)\<rparr>]"
    by (auto simp add: as_completed_def)
  from one_result_per_url [OF h] h show ?thesis
    by auto
qed

lemma two_of_list:
  assumes "i < k" and "k < length xs"
  shows "{#xs ! i, xs ! k#} \<subseteq># mset xs"
proof -
  have "take k xs @ xs ! k # drop (Suc k) xs = xs"
    using assms(2) by (simp only: id_take_nth_drop [symmetric])
  then have "mset xs = mset (take k xs @ xs ! k # drop (Suc k) xs)"
    by (simp only:)
  then have split: "mset xs = add_mset (xs ! k) (mset (take k xs) + mset (drop (Suc k) xs))"
    by (simp only: mset_append mset.simps union_mset_add_mset_right)
  have "take k xs ! i \<in> set (take k xs)"
    using assms by (intro nth_mem) simp
  then have "xs ! i \<in># mset (take k xs)"
    using assms by simp
  then obtain M where M: "mset (take k xs) = add_mset (xs ! i) M"
    by (rule multi_member_split [THEN exE])
  have "mset xs = {#xs ! i, xs ! k#} + (M + mset (drop (Suc k) xs))"
    by (simp only: split M) simp
  then show ?thesis
    by (simp only: mset_subset_eq_add_left)
qed

lemma calls_nth:
  "i < length us \<Longrightarrow>
   map (\<lambda>(i, u). check_url round3 u (envs i)) (enumerate n us) ! i =
     check_url round3 (us ! i) (envs (n + i))"
  by (simp add: nth_enumerate_eq)

text \<open>
  Claim C8. No deduplication by URL: the results are the return values of the submitted
  calls, each once, so for every URL \<open>u\<close> they hold as many entries for \<open>u\<close> as \<open>u\<close> has
  occurrences in the submitted sequence; when \<open>u\<close> stands at two places \<open>i\<close> and \<open>k\<close>, the
  results of both calls, each made in its own world, are among them.
\<close>

theorem no_deduplication:
  assumes "as_completed (submit_each round3 envs 0 urls Map.empty) completed"
  shows "\<exists>results. probe_all round3 envs urls completed = Inr (results, []) \<and>
           mset (map Inr results) =
             mset (map (\<lambda>(i, u). check_url round3 u (envs i)) (enumerate 0 urls)) \<and>
           length (filter (\<lambda>d. url d = u) results) = count_list urls u \<and>
           (i < k \<and> k < length urls \<and> urls ! i = u \<and> urls ! k = u \<longrightarrow>
              {#check_url round3 u (envs i), check_url round3 u (envs k)#}
                \<subseteq># mset (map Inr results))"
proof -
  let ?calls = "map (\<lambda>(i, u). check_url round3 u (envs i)) (enumerate 0 urls)"
  from probe_all_results [OF assms] obtain results where
    r: "probe_all round3 envs urls completed = Inr (results, [])"
      "mset (map Inr results) = mset ?calls"
    by blast
  have "mset (map url results) = mset urls"
    using r(2) by (rule mset_urls_of_results)
  then have "count_list (map url results) u = count_list urls u"
    by (metis count_mset)
  then have c: "length (filter (\<lambda>d. url d = u) results) = count_list urls u"
    by (simp only: count_list_map_url)
  have p: "i < k \<and> k < length urls \<and> urls ! i = u \<and> urls ! k = u \<longrightarrow>
      {#check_url round3 u (envs i), check_url round3 u (envs k)#} \<subseteq># mset (map Inr results)"
  proof
    assume a: "i < k \<and> k < length urls \<and> urls ! i = u \<and> urls ! k = u"
    then have "{#?calls ! i, ?calls ! k#} \<subseteq># mset ?calls"
      by (intro two_of_list) simp_all
    moreover from a have "?calls ! i = check_url round3 u (envs i)"
      using calls_nth [of i urls round3 envs 0] by simp
    moreover from a have "?calls ! k = check_url round3 u (envs k)"
      using calls_nth [of k urls round3 envs 0] by simp
    ultimately show "{#check_url round3 u (envs i), check_url round3 u (envs k)#}
        \<subseteq># mset (map Inr results)"
      by (simp only: r(2))
  qed
  from r c p show ?thesis
    by blast
qed

text \<open>
  The same URL twice, answered with 200 and then with 404: both results are kept, though
  the second call finished first.
\<close>

theorem no_deduplication_witness:
  "as_completed (submit_each (\<lambda>x. x) (\<lambda>n. if n = 0 then responds 200 else responds 404) 0
       [[97], [97]] Map.empty)
     [\<lparr>future_id = 1, outcome = check_url (\<lambda>x. x) [97] (responds 404)\<rparr>,
      \<lparr>future_id = 0, outcome = check_url (\<lambda>x. x) [97] (responds 200)\<rparr>] \<and>
   (0::nat) < 1 \<and> (1::nat) < length [[97], [97::nat]] \<and>
   (\<exists>results.
      probe_all (\<lambda>x. x) (\<lambda>n. if n = 0 then responds 200 else responds 404) [[97], [97]]
        [\<lparr>future_id = 1, outcome = check_url (\<lambda>x. x) [97] (responds 404)\<rparr>,
         \<lparr>future_id = 0, outcome = check_url (\<lambda>x. x) [97] (responds 200)\<rparr>] = Inr (results, []) \<and>
      length (filter (\<lambda>d. url d = [97]) results) = 2 \<and>
      {#Inr \<lparr>url = [97], is_404 = False, status_code = Some 200, response_time = Some (1::int),
              error = []\<rparr>,
        Inr \<lparr>url = [97], is_404 = True, status_code = Some 404, response_time = Some 1,
              error = []\<rparr>#} \<subseteq># mset (map (Inr :: int details \<Rightarrow> exn + int details) results))"
proof -
  have h: "as_completed (submit_each (\<lambda>x. x) (\<lambda>n. if n = 0 then responds 200 else responds 404) 0
       [[97], [97]] Map.empty)
     [\<lparr>future_id = 1, outcome = check_url (\<lambda>x. x) [97] (responds 404)\<rparr>,
      \<lparr>future_id = 0, outcome = check_url (\<lambda>x. x) [97] (responds 200)\<rparr>]"
    by (auto simp add: as_completed_def)
  have c0: "check_url (\<lambda>x. x) [97] (responds 200) =
      Inr \<lparr>url = [97], is_404 = False, status_code = Some 200, response_time = Some 1,
           error = []\<rparr>"
    by (simp add: check_url_responds responds_def)
  have c1: "check_url (\<lambda>x. x) [97] (responds 404) =
      Inr \<lparr>url = [97], is_404 = True, status_code = Some 404, response_time = Some 1,
           error = []\<rparr>"
    by (simp add: check_url_responds responds_def)
  from no_deduplication [OF h, of "[97]" 0 1] obtain results where
    all: "probe_all (\<lambda>x. x) (\<lambda>n. if n = 0 then responds 200 else responds 404) [[97], [97]]
        [\<lparr>future_id = 1, outcome = check_url (\<lambda>x. x) [97] (responds 404)\<rparr>,
         \<lparr>future_id = 0, outcome = check_url (\<lambda>x. x) [97] (responds 200)\<rparr>] = Inr (results, []) \<and>
      mset (map Inr results) =
        mset (map (\<lambda>(i, u). check_url (\<lambda>x. x) u (if i = 0 then responds 200 else responds 404))
               (enumerate 0 [[97], [97]])) \<and>
      length (filter (\<lambda>d. url d = [97]) results) = count_list [[97], [97::nat]] [97] \<and>
      ((0::nat) < 1 \<and> 1 < length [[97], [97::nat]] \<and> [[97], [97::nat]] ! 0 = [97] \<and>
          [[97], [97::nat]] ! 1 = [97] \<longrightarrow>
        {#check_url (\<lambda>x. x) [97] (if (0::nat) = 0 then responds 200 else responds 404),
          check_url (\<lambda>x. x) [97] (if (1::nat) = 0 then responds 200 else responds 404)#}
          \<subseteq># mset (map Inr results))" ..
  from all have r: "probe_all (\<lambda>x. x) (\<lambda>n. if n = 0 then responds 200 else responds 404)
        [[97], [97]]
        [\<lparr>future_id = 1, outcome = check_url (\<lambda>x. x) [97] (responds 404)\<rparr>,
         \<lparr>future_id = 0, outcome = check_url (\<lambda>x. x) [97] (responds 200)\<rparr>] = Inr (results, [])"
    by (rule conjunct1)
  from all have two: "length (filter (\<lambda>d. url d = [97]) results) = 2"
    by simp
  from all have "{#check_url (\<lambda>x. x) [97] (responds 200), check_url (\<lambda>x. x) [97] (responds 404)#}
      \<subseteq># mset (map Inr results)"
    by simp
  then have both:
    "{#Inr \<lparr>url = [97], is_404 = False, status_code = Some 200, response_time = Some (1::int),
            error = []\<rparr>,
       Inr \<lparr>url = [97], is_404 = True, status_code = Some 404, response_time = Some 1,
            error = []\<rparr>#} \<subseteq># mset (map (Inr :: int details \<Rightarrow> exn + int details) results)"
    by (simp only: c0 c1)
  show ?thesis
  proof (intro conjI)
    show "as_completed (submit_each (\<lambda>x. x) (\<lambda>n. if n = 0 then responds 200 else responds 404) 0
       [[97], [97]] Map.empty)
     [\<lparr>future_id = 1, outcome = check_url (\<lambda>x. x) [97] (responds 404)\<rparr>,
      \<lparr>future_id = 0, outcome = check_url (\<lambda>x. x) [97] (responds 200)\<rparr>]"
      by (rule h)
    show "(0::nat) < 1" by simp
    show "(1::nat) < length [[97], [97::nat]]" by simp
    show "\<exists>results.
      probe_all (\<lambda>x. x) (\<lambda>n. if n = 0 then responds 200 else responds 404) [[97], [97]]
        [\<lparr>future_id = 1, outcome = check_url (\<lambda>x. x) [97] (responds 404)\<rparr>,
         \<lparr>future_id = 0, outcome = check_url (\<lambda>x. x) [97] (responds 200)\<rparr>] = Inr (results, []) \<and>
      length (filter (\<lambda>d. url d = [97]) results) = 2 \<and>
      {#Inr \<lparr>url = [97], is_404 = False, status_code = Some 200, response_time = Some (1::int),
              error = []\<rparr>,
        Inr \<lparr>url = [97], is_404 = True, status_code = Some 404, response_time = Some 1,
              error = []\<rparr>#} \<subseteq># mset (map (Inr :: int details \<Rightarrow> exn + int details) results)"
      using r two both by (intro exI [of _ results] conjI)
  qed
qed

section \<open>The response time\<close>









section \<open>Properties of the input\<close>

lemma read_urls_eq:
  "read_urls rows = map (\<lambda>row. strip (hd row)) (filter (\<lambda>row. row \<noteq> []) rows)"
  by (induction rows rule: read_urls.induct) simp_all

lemma last_dropWhile:
  "dropWhile P xs \<noteq> [] \<Longrightarrow> last (dropWhile P xs) = last xs"
proof -
  assume a: "dropWhile P xs \<noteq> []"
  have "last xs = last (takeWhile P xs @ dropWhile P xs)"
    by simp
  also have "\<dots> = last (dropWhile P xs)"
    using a by (rule last_appendR)
  finally show ?thesis by simp
qed

lemma strip_ends:
  "strip s = [] \<or> (\<not> isspace (hd (strip s)) \<and> \<not> isspace (last (strip s)))"
proof (cases "strip s = []")
  case True
  then show ?thesis by simp
next
  case False
  let ?t = "dropWhile isspace s"
  let ?w = "dropWhile isspace (rev ?t)"
  from False have w: "?w \<noteq> []"
    by (simp add: strip_def)
  have t: "?t \<noteq> []"
  proof
    assume "?t = []"
    then have "?w = []"
      by (simp only: rev.simps dropWhile.simps)
    with w show False by blast
  qed
  have "last (strip s) = hd ?w"
    using w by (simp add: strip_def last_rev)
  moreover have "\<not> isspace (hd ?w)"
    using w by (rule hd_dropWhile)
  moreover have "hd (strip s) = last ?w"
    using w by (simp add: strip_def hd_rev)
  moreover have "last ?w = last (rev ?t)"
    using w by (rule last_dropWhile)
  moreover have "last (rev ?t) = hd ?t"
    using t by (simp add: last_rev)
  moreover have "\<not> isspace (hd ?t)"
    using t by (rule hd_dropWhile)
  ultimately show ?thesis
    by simp
qed

lemma strip_removes:
  "\<exists>pre post. s = pre @ strip s @ post \<and> list_all isspace pre \<and> list_all isspace post"
proof (intro exI conjI)
  let ?t = "dropWhile isspace s"
  have "rev (rev ?t) = rev (takeWhile isspace (rev ?t) @ dropWhile isspace (rev ?t))"
    by (simp only: takeWhile_dropWhile_id)
  then have "?t = strip s @ rev (takeWhile isspace (rev ?t))"
    by (simp only: rev_rev_ident rev_append strip_def)
  moreover have "s = takeWhile isspace s @ ?t"
    by simp
  ultimately show "s = takeWhile isspace s @ strip s @ rev (takeWhile isspace (rev ?t))"
    by simp
  show "list_all isspace (takeWhile isspace s)"
    by (simp add: list_all_iff) (meson set_takeWhileD)
  show "list_all isspace (rev (takeWhile isspace (rev ?t)))"
    by (simp add: list_all_iff) (meson set_takeWhileD)
qed

text \<open>
  Claim C6, as stated, fails: a line holding one space is the row \<open>[" "]\<close>, which is not
  an empty row, and its first field is stripped to the empty string, which is submitted.
\<close>

theorem read_urls_empty_url: "[] \<in> set (read_urls [[[32]]])"
  by (simp add: strip_def isspace_def)

text \<open>
  Claim C6, amended. The URLs submitted are the first fields of the rows that have a
  field, in order, each stripped; rows without a field are discarded. A stripped URL
  neither begins nor ends with whitespace, and \<open>strip\<close> removes nothing but whitespace
  at the two ends.
\<close>

theorem read_urls_trimmed:
  "read_urls rows = map (\<lambda>row. strip (hd row)) (filter (\<lambda>row. row \<noteq> []) rows) \<and>
   (\<forall>u \<in> set (read_urls rows). u = [] \<or> (\<not> isspace (hd u) \<and> \<not> isspace (last u))) \<and>
   (\<forall>s. \<exists>pre post. s = pre @ strip s @ post \<and> list_all isspace pre \<and> list_all isspace post)"
proof (intro conjI)
  show "read_urls rows = map (\<lambda>row. strip (hd row)) (filter (\<lambda>row. row \<noteq> []) rows)"
    by (rule read_urls_eq)
  show "\<forall>u \<in> set (read_urls rows). u = [] \<or> (\<not> isspace (hd u) \<and> \<not> isspace (last u))"
    using strip_ends by (auto simp add: read_urls_eq)
  show "\<forall>s. \<exists>pre post. s = pre @ strip s @ post \<and> list_all isspace pre \<and> list_all isspace post"
    using strip_removes by blast
qed

text \<open>Three rows: \<open>" ab\n"\<close> with a second field, an empty row, and a tab.\<close>

theorem read_urls_trimmed_witness:
  "read_urls [[[32, 97, 98, 10], [99]], [], [[9]]] = [[97, 98], []] \<and>
   \<not> isspace (hd [97, 98]) \<and> \<not> isspace (last [97, 98])"
  using read_urls_trimmed [of "[[[32, 97, 98, 10], [99]], [], [[9]]]"]
  by (simp add: strip_def isspace_def)

section \<open>Properties of get_search_analytics_data\<close>

lemma fetch_returns:
  "build_request tok site sd ed = Inr req \<Longrightarrow>
   \<exists>v printed. get_search_analytics_data env tok site sd ed = Inr (v, printed)"
  by (simp add: get_search_analytics_data_def split: sum.splits)

lemma fetch_success:
  "build_request tok site sd ed = Inr req \<Longrightarrow>
   urlopen env req = Inr resp \<Longrightarrow> read resp = Inr bytes \<Longrightarrow>
   decode env bytes = Inr text \<Longrightarrow> json_loads env text = Inr v \<Longrightarrow> close resp = None \<Longrightarrow>
   get_search_analytics_data env tok site sd ed = Inr (v, [])"
  by (simp add: get_search_analytics_data_def fetch_body_def)

lemma fetch_failure:
  "build_request tok site sd ed = Inr req \<Longrightarrow>
   \<not> (\<exists>resp bytes text v.
        urlopen env req = Inr resp \<and> read resp = Inr bytes \<and>
        decode env bytes = Inr text \<and> json_loads env text = Inr v \<and> close resp = None) \<Longrightarrow>
   \<exists>line. get_search_analytics_data env tok site sd ed = Inr (None, [line])"
  by (auto simp add: get_search_analytics_data_def fetch_body_def
      split: sum.splits option.splits)

lemma build_request_serializable:
  "as_json sd = Inr j1 \<Longrightarrow> as_json ed = Inr j2 \<Longrightarrow>
   \<exists>req. build_request tok site sd ed = Inr req"
  by (simp add: build_request_def Let_def)

lemma fetch_raises:
  "build_request tok site sd ed = Inl e \<Longrightarrow>
   get_search_analytics_data env tok site sd ed = Inl e"
  by (simp add: get_search_analytics_data_def)

text \<open>
  Claim C10, as stated, fails: the payload is serialized on line 17, before the \<open>try\<close>,
  so a \<open>start_date\<close> that \<open>json.dumps\<close> rejects, such as a \<open>date\<close> object, makes the
  function raise TypeError.
\<close>

theorem fetch_raises_type_error:
  "get_search_analytics_data fetch_ok (str_arg [116]) (str_arg [115]) a_date (str_arg [50]) =
     Inl (Exception (lit ''Object of type date is not JSON serializable''))"
  by (simp add: get_search_analytics_data_def build_request_def a_date_def Let_def)

text \<open>
  Claim C10, amended. When \<open>start_date\<close> and \<open>end_date\<close> are JSON serializable (strings,
  for one), \<open>get_search_analytics_data\<close> lets no exception out: when the request, the
  reading, the decoding, the parsing and the closing all succeed, it returns the parsed
  value and prints nothing; in every other case it returns \<open>None\<close> and prints one line.
  When \<open>json.dumps\<close> rejects \<open>start_date\<close> or \<open>end_date\<close>, its exception leaves the function.
\<close>

theorem fetch_returns_when_serializable:
  "(as_json start_date = Inr j1 \<and> as_json end_date = Inr j2 \<longrightarrow>
      (\<exists>req. build_request tok site start_date end_date = Inr req \<and>
         (\<exists>v printed. get_search_analytics_data env tok site start_date end_date =
            Inr (v, printed)) \<and>
         (urlopen env req = Inr resp \<and> read resp = Inr bytes \<and> decode env bytes = Inr text \<and>
          json_loads env text = Inr v \<and> close resp = None \<longrightarrow>
            get_search_analytics_data env tok site start_date end_date = Inr (v, [])) \<and>
         (\<not> (\<exists>resp bytes text v.
               urlopen env req = Inr resp \<and> read resp = Inr bytes \<and>
               decode env bytes = Inr text \<and> json_loads env text = Inr v \<and>
               close resp = None) \<longrightarrow>
            (\<exists>line. get_search_analytics_data env tok site start_date end_date =
               Inr (None, [line]))))) \<and>
   (as_json start_date = Inl e \<longrightarrow>
      get_search_analytics_data env tok site start_date end_date = Inl e) \<and>
   (as_json start_date = Inr j1 \<and> as_json end_date = Inl e \<longrightarrow>
      get_search_analytics_data env tok site start_date end_date = Inl e)"
proof (intro conjI impI)
  assume a: "as_json start_date = Inr j1 \<and> as_json end_date = Inr j2"
  then obtain req where req: "build_request tok site start_date end_date = Inr req"
    using build_request_serializable by blast
  show "\<exists>req. build_request tok site start_date end_date = Inr req \<and>
         (\<exists>v printed. get_search_analytics_data env tok site start_date end_date =
            Inr (v, printed)) \<and>
         (urlopen env req = Inr resp \<and> read resp = Inr bytes \<and> decode env bytes = Inr text \<and>
          json_loads env text = Inr v \<and> close resp = None \<longrightarrow>
            get_search_analytics_data env tok site start_date end_date = Inr (v, [])) \<and>
         (\<not> (\<exists>resp bytes text v.
               urlopen env req = Inr resp \<and> read resp = Inr bytes \<and>
               decode env bytes = Inr text \<and> json_loads env text = Inr v \<and>
               close resp = None) \<longrightarrow>
            (\<exists>line. get_search_analytics_data env tok site start_date end_date =
               Inr (None, [line])))"
  proof (intro exI [of _ req] conjI impI)
    show "build_request tok site start_date end_date = Inr req"
      by (rule req)
    show "\<exists>v printed. get_search_analytics_data env tok site start_date end_date =
        Inr (v, printed)"
      using req by (rule fetch_returns)
    show "get_search_analytics_data env tok site start_date end_date = Inr (v, [])"
      if "urlopen env req = Inr resp \<and> read resp = Inr bytes \<and> decode env bytes = Inr text \<and>
          json_loads env text = Inr v \<and> close resp = None"
      using req that by (simp add: fetch_success)
    show "\<exists>line. get_search_analytics_data env tok site start_date end_date =
        Inr (None, [line])"
      if "\<not> (\<exists>resp bytes text v.
               urlopen env req = Inr resp \<and> read resp = Inr bytes \<and>
               decode env bytes = Inr text \<and> json_loads env text = Inr v \<and>
               close resp = None)"
      using req that by (rule fetch_failure)
  qed
next
  assume "as_json start_date = Inl e"
  then have "build_request tok site start_date end_date = Inl e"
    by (simp add: build_request_def Let_def)
  then show "get_search_analytics_data env tok site start_date end_date = Inl e"
    by (rule fetch_raises)
next
  assume "as_json start_date = Inr j1 \<and> as_json end_date = Inl e"
  then have "build_request tok site start_date end_date = Inl e"
    by (simp add: build_request_def Let_def)
  then show "get_search_analytics_data env tok site start_date end_date = Inl e"
    by (rule fetch_raises)
qed

text \<open>
  With strings: a fetch that succeeds, and one that is refused with an HTTP error; with a
  \<open>date\<close> in the place of either date: TypeError.
\<close>

theorem fetch_returns_when_serializable_witness:
  "as_json (str_arg [49]) = Inr (JString [49]) \<and> as_json (str_arg [50]) = Inr (JString [50]) \<and>
   get_search_analytics_data fetch_ok (str_arg [116]) (str_arg [115]) (str_arg [49]) (str_arg [50])
     = Inr (Some 7, []) \<and>
   (\<exists>line. get_search_analytics_data fetch_forbidden (str_arg [116]) (str_arg [115])
      (str_arg [49]) (str_arg [50]) = Inr (None, [line])) \<and>
   as_json a_date = Inl (Exception (lit ''Object of type date is not JSON serializable'')) \<and>
   get_search_analytics_data fetch_ok (str_arg [116]) (str_arg [115]) a_date (str_arg [50]) =
     Inl (Exception (lit ''Object of type date is not JSON serializable'')) \<and>
   get_search_analytics_data fetch_ok (str_arg [116]) (str_arg [115]) (str_arg [49]) a_date =
     Inl (Exception (lit ''Object of type date is not JSON serializable''))"
  using fetch_returns_when_serializable [of "str_arg [49]" "JString [49]" "str_arg [50]"
      "JString [50]" "str_arg [116]" "str_arg [115]" fetch_ok
      "\<lparr>read = Inr [55], close = None\<rparr>" "[55]" "[55]" "Some 7"]
    fetch_returns_when_serializable [of "str_arg [49]" "JString [49]" "str_arg [50]"
      "JString [50]" "str_arg [116]" "str_arg [115]" fetch_forbidden]
    fetch_returns_when_serializable [of a_date _ _ _ "str_arg [116]" "str_arg [115]" fetch_ok
      _ _ _ _ "Exception (lit ''Object of type date is not JSON serializable'')"]
    fetch_returns_when_serializable [of "str_arg [49]" "JString [49]" a_date _
      "str_arg [116]" "str_arg [115]" fetch_ok
      _ _ _ _ "Exception (lit ''Object of type date is not JSON serializable'')"]
  by (simp add: fetch_ok_def fetch_forbidden_def str_arg_def a_date_def)

end
